theory Spec2Isabelle
  imports Complex_Main "HOL-Library.Sublist"
begin

section \<open>Data model\<close>

text \<open>
  A Python \<open>str\<close> is modelled as a \<open>string\<close>: one \<open>char\<close> per code point, for code
  points below 256. The dataset rows are dictionaries with the keys \<open>instruction\<close>,
  \<open>input\<close> and \<open>output\<close>; \<open>format_instruction\<close> returns a dictionary with the single
  key \<open>text\<close>.
\<close>

record example =
  instruction :: string
  input :: string
  "output" :: string

record formatted =
  "text" :: string

section \<open>Prompt templates\<close>

text \<open>The fixed pieces of the two f-string templates, split where a field is spliced in.\<close>

definition preamble_with_input :: string where
  "preamble_with_input = ''Below is an instruction that describes a task, paired with an input that provides further context. Write a response that appropriately completes the request.\<newline>\<newline>### Instruction:\<newline>''"

definition preamble_no_input :: string where
  "preamble_no_input = ''Below is an instruction that describes a task. Write a response that appropriately completes the request.\<newline>\<newline>### Instruction:\<newline>''"

definition input_header :: string where
  "input_header = ''\<newline>\<newline>### Input:\<newline>''"

definition response_header :: string where
  "response_header = ''\<newline>\<newline>### Response:\<newline>''"

text \<open>
  \<open>format_instruction\<close> (source lines 97 to 108). The test \<open>if input_text:\<close> on a
  string is true exactly when the string is not empty.
\<close>

definition format_instruction :: "example \<Rightarrow> formatted" where
  "format_instruction ex =
     (let instr = instruction ex; input_text = input ex; out = output ex;
          prompt =
            (if input_text \<noteq> []
             then preamble_with_input @ instr @ input_header @ input_text @ response_header @ out
             else preamble_no_input @ instr @ response_header @ out)
      in \<lparr>text = prompt\<rparr>)"

text \<open>
  The prompt that \<open>generate_response\<close> builds (source lines 212 to 215), before it is
  handed to the tokenizer.
\<close>

definition build_prompt :: "string \<Rightarrow> string \<Rightarrow> string" where
  "build_prompt instr input_text =
     (if input_text \<noteq> []
      then preamble_with_input @ instr @ input_header @ input_text @ response_header
      else preamble_no_input @ instr @ response_header)"

section \<open>Python string operations used by the script\<close>

datatype py_error = ValueError | IndexError

text \<open>\<open>sub in s\<close>: some position of \<open>s\<close> starts a copy of \<open>sub\<close>.\<close>

fun contains :: "string \<Rightarrow> string \<Rightarrow> bool" where
  "contains sub [] = (sub = [])"
| "contains sub (c # cs) = (prefix sub (c # cs) \<or> contains sub cs)"

text \<open>
  \<open>str.isspace\<close> on one character, for the code points below 256: tab to carriage
  return, the four separators 0x1C to 0x1F, the space, NEL (0x85) and the no-break space
  (0xA0). \<open>s.strip()\<close> removes the longest run of such characters at each end.
\<close>

definition is_space :: "char \<Rightarrow> bool" where
  "is_space c =
     (let n = (of_char c :: nat)
      in (9 \<le> n \<and> n \<le> 13) \<or> (28 \<le> n \<and> n \<le> 32) \<or> n = 133 \<or> n = 160)"

definition lstrip :: "string \<Rightarrow> string" where
  "lstrip s = dropWhile is_space s"

definition rstrip :: "string \<Rightarrow> string" where
  "rstrip s = rev (dropWhile is_space (rev s))"

definition strip :: "string \<Rightarrow> string" where
  "strip s = rstrip (lstrip s)"

text \<open>
  \<open>s.split(sep)\<close>: scan from the left; where a copy of \<open>sep\<close> starts, close the current
  piece and continue after the copy; the text after the last copy is the last piece.
  \<open>acc\<close> is the piece being collected. An empty separator raises \<open>ValueError\<close>.
\<close>

function split_from :: "string \<Rightarrow> string \<Rightarrow> string \<Rightarrow> string list" where
  "split_from sep acc [] = [acc]"
| "split_from sep acc (c # cs) =
     (if sep \<noteq> [] \<and> prefix sep (c # cs)
      then acc # split_from sep [] (drop (length sep) (c # cs))
      else split_from sep (acc @ [c]) cs)"
  by pat_completeness auto
termination
  by (relation "measure (\<lambda>(sep, acc, s). length s)") auto

definition split :: "string \<Rightarrow> string \<Rightarrow> py_error + string list" where
  "split s sep = (if sep = [] then Inl ValueError else Inr (split_from sep [] s))"

text \<open>\<open>xs[-1]\<close>: the last element, \<open>IndexError\<close> on an empty list.\<close>

definition last_item :: "'a list \<Rightarrow> py_error + 'a" where
  "last_item xs = (case xs of [] \<Rightarrow> Inl IndexError | _ # _ \<Rightarrow> Inr (last xs))"

section \<open>Response extraction\<close>

definition response_marker :: string where
  "response_marker = ''### Response:''"

text \<open>
  Source line 232, \<open>response.split("### Response:")[-1].strip()\<close>, as a function of the
  decoded text.
\<close>

definition extract_response :: "string \<Rightarrow> py_error + string" where
  "extract_response response =
     (case split response response_marker of
        Inl e \<Rightarrow> Inl e
      | Inr parts \<Rightarrow>
          (case last_item parts of
             Inl e \<Rightarrow> Inl e
           | Inr seg \<Rightarrow> Inr (strip seg)))"

text \<open>
  \<open>generate_response\<close> (source lines 210 to 233). Tokenizing the prompt, sampling from the
  model and decoding the result belong to the libraries; together they are the parameter
  \<open>decode_generate\<close>, from the prompt and \<open>max_length\<close> to the decoded text.
\<close>

definition generate_response ::
  "(string \<Rightarrow> nat \<Rightarrow> string) \<Rightarrow> string \<Rightarrow> string \<Rightarrow> nat \<Rightarrow> py_error + string" where
  "generate_response decode_generate instr input_text max_length =
     (let prompt = build_prompt instr input_text;
          response = decode_generate prompt max_length
      in extract_response response)"

section \<open>Taking a part of the dataset\<close>

text \<open>
  Source lines 56 and 91 to 92. A Python float is modelled by the rational number it
  stands for; \<open>DATASET_SIZE\<close> is the value of its literal. \<open>len(...) * DATASET_SIZE\<close> is a
  float product: the exact product, rounded to a double. The rounding is the parameter
  \<open>rnd\<close>; the theorems assume of it only that it is monotone and leaves the whole numbers
  up to the length of the dataset as they are (a whole number below \<open>2 ^ 53\<close> is a
  double). \<open>int(x)\<close> on a float drops the fractional part, rounding towards zero.
\<close>

definition DATASET_SIZE :: rat where
  "DATASET_SIZE = 1 / 100"

definition py_int :: "rat \<Rightarrow> int" where
  "py_int x = (if x < 0 then - \<lfloor>- x\<rfloor> else \<lfloor>x\<rfloor>)"

definition train_size :: "(rat \<Rightarrow> rat) \<Rightarrow> 'a list \<Rightarrow> rat \<Rightarrow> int" where
  "train_size rnd ds fraction = py_int (rnd (of_nat (length ds) * fraction))"

text \<open>\<open>range(n)\<close>: the indices \<open>0, ..., n - 1\<close>, none when \<open>n\<close> is not positive.\<close>

definition py_range :: "int \<Rightarrow> nat list" where
  "py_range n = (if n \<le> 0 then [] else [0..<nat n])"

text \<open>
  \<open>Dataset.select\<close> of the datasets library, as the script uses it: on an ordered dataset
  it returns the rows at the given indices, in the order of the indices; an index past
  the end is an \<open>IndexError\<close>; an empty dataset is returned as it is.
\<close>

definition select :: "'a list \<Rightarrow> nat list \<Rightarrow> py_error + 'a list" where
  "select ds indices =
     (if ds = [] then Inr ds
      else if list_all (\<lambda>i. i < length ds) indices then Inr (map (\<lambda>i. ds ! i) indices)
      else Inl IndexError)"

definition train_dataset :: "(rat \<Rightarrow> rat) \<Rightarrow> 'a list \<Rightarrow> rat \<Rightarrow> py_error + 'a list" where
  "train_dataset rnd ds fraction = select ds (py_range (train_size rnd ds fraction))"

text \<open>
  The slicing contract in the words of the specification: the call returns, what it
  returns has \<open>floor(len(dataset) * fraction)\<close> rows (the product as the program computes
  it), and they are the first rows of the dataset in their order.
\<close>

definition returns_floor_prefix :: "(rat \<Rightarrow> rat) \<Rightarrow> 'a list \<Rightarrow> rat \<Rightarrow> bool" where
  "returns_floor_prefix rnd ds fraction =
     (case train_dataset rnd ds fraction of
        Inl e \<Rightarrow> False
      | Inr rows \<Rightarrow>
          int (length rows) = \<lfloor>rnd (of_nat (length ds) * fraction)\<rfloor>
          \<and> rows = take (length rows) ds)"

section \<open>Console output\<close>

text \<open>
  The lines the script prints last (source lines 265 to 270); \<open>closing_message\<close> is the
  final one.
\<close>

definition OUTPUT_DIR :: string where
  "OUTPUT_DIR = ''./mistral-7b-alpaca-lora''"

definition closing_lines :: "string list" where
  "closing_lines =
     [''\<newline>'' @ replicate 50 CHR ''='',
      ''FINE-TUNING COMPLETE!'',
      replicate 50 CHR ''='',
      ''Model saved to: '' @ OUTPUT_DIR,
      ''You can now use this model for inference or further training.'',
      ''The model has been fine-tuned on 5% of the Alpaca dataset using LoRA.'']"

definition closing_message :: string where
  "closing_message = last closing_lines"

section \<open>Facts about the string operations\<close>

lemma contains_iff: "contains sub s \<longleftrightarrow> sublist sub s"
  by (induction s) (auto simp: sublist_Cons_right)

lemma prefix_Cons_absent:
  assumes "c \<notin> set ys" and "prefix ys (c # b)"
  shows "ys = []"
  using assms by (cases ys) auto

text \<open>
  A character that does not occur in \<open>sub\<close> separates the search: a copy of \<open>sub\<close> lies
  on one side of it.
\<close>

lemma contains_across:
  assumes c: "c \<notin> set sub"
  shows "contains sub (a @ c # b) \<longleftrightarrow> contains sub a \<or> contains sub b"
proof
  assume "contains sub (a @ c # b)"
  then have "sublist sub (a @ c # b)" by (simp add: contains_iff)
  then consider (left) "sublist sub a" | (right) "sublist sub (c # b)"
    | (mid) xs1 xs2 where "sub = xs1 @ xs2" "suffix xs1 a" "prefix xs2 (c # b)"
    unfolding sublist_append by blast
  then have "sublist sub a \<or> sublist sub b"
  proof cases
    case left
    then show ?thesis by simp
  next
    case right
    then have "prefix sub (c # b) \<or> sublist sub b" by (simp add: sublist_Cons_right)
    then show ?thesis using prefix_Cons_absent [OF c] by auto
  next
    case mid
    have "c \<notin> set xs2" using c mid(1) by simp
    then have "xs2 = []" using mid(3) by (rule prefix_Cons_absent)
    then have "suffix sub a" using mid(1,2) by simp
    then show ?thesis by (simp add: suffix_imp_sublist)
  qed
  then show "contains sub a \<or> contains sub b" by (simp add: contains_iff)
next
  assume "contains sub a \<or> contains sub b"
  then have "sublist sub a \<or> sublist sub b" by (simp add: contains_iff)
  then have "sublist sub (a @ c # b)"
    by (auto simp: sublist_append sublist_Cons_right)
  then show "contains sub (a @ c # b)" by (simp add: contains_iff)
qed

lemma is_space_newline: "is_space CHR ''\<newline>''"
  by (simp add: is_space_def)

lemma strip_space_Cons: "is_space c \<Longrightarrow> strip (c # s) = strip s"
  by (simp add: strip_def lstrip_def)

text \<open>What \<open>strip\<close> removes is a run of whitespace at each end, and nothing else.\<close>

lemma strip_decompose:
  "\<exists>l r. s = l @ strip s @ r \<and> list_all is_space l \<and> list_all is_space r"
proof -
  let ?l = "takeWhile is_space s"
  let ?t = "dropWhile is_space s"
  let ?r = "rev (takeWhile is_space (rev ?t))"
  have "rev (takeWhile is_space (rev ?t) @ dropWhile is_space (rev ?t)) = rev (rev ?t)"
    by (simp only: takeWhile_dropWhile_id)
  then have "rev (dropWhile is_space (rev ?t)) @ ?r = ?t"
    by (simp only: rev_append rev_rev_ident)
  then have t: "?t = rstrip ?t @ ?r" by (simp only: rstrip_def)
  have "s = ?l @ ?t" by simp
  then have "s = ?l @ strip s @ ?r" using t by (simp add: strip_def lstrip_def)
  moreover have "list_all is_space ?l"
    by (auto simp: list_all_iff dest: set_takeWhileD)
  moreover have "list_all is_space ?r"
    by (auto simp: list_all_iff dest: set_takeWhileD)
  ultimately show ?thesis by blast
qed

section \<open>Facts about splitting\<close>

lemma split_from_not_Nil: "split_from sep acc s \<noteq> []"
  by (induction sep acc s rule: split_from.induct) auto

lemma split_from_no_sep:
  "\<not> contains sep s \<Longrightarrow> split_from sep acc s = [acc @ s]"
  by (induction sep acc s rule: split_from.induct) auto

text \<open>
  When the last character of the separator occurs nowhere else in it, two copies of the
  separator cannot overlap.
\<close>

lemma no_overlap:
  assumes ne: "sep \<noteq> []" and uniq: "last sep \<notin> set (butlast sep)"
      and pre: "prefix sep (u @ sep @ v)" and u: "u \<noteq> []"
  shows "length sep \<le> length u"
proof (rule ccontr)
  assume "\<not> length sep \<le> length u"
  then have lt: "length u < length sep" by simp
  from pre obtain w where w: "u @ sep @ v = sep @ w" by (auto simp: prefix_def)
  have "sep = take (length sep) (u @ sep @ v)" using w by simp
  also have "\<dots> = u @ take (length sep - length u) sep" using lt by simp
  finally have eq: "sep = u @ take (length sep - length u) sep" .
  let ?k = "length sep - length u"
  have "0 < length u" using u by simp
  then have k: "0 < ?k" "?k < length sep" using lt by arith+
  have t_ne: "take ?k sep \<noteq> []" using k ne by simp
  have "last (u @ take ?k sep) = last (take ?k sep)" using t_ne by simp
  then have "last sep = last (take ?k sep)" using eq by simp
  moreover have "last (take ?k sep) \<in> set (take ?k sep)" using t_ne by simp
  moreover have "take ?k sep = take ?k (butlast sep)" using k by (simp add: take_butlast)
  ultimately have "last sep \<in> set (butlast sep)" by (metis in_set_takeD)
  then show False using uniq by simp
qed

text \<open>The last piece of a split is decided by the text after any copy of the separator.\<close>

lemma last_split_from_after:
  assumes ne: "sep \<noteq> []" and uniq: "last sep \<notin> set (butlast sep)"
  shows "last (split_from sep acc (u @ sep @ v)) = last (split_from sep [] v)"
proof (induction u arbitrary: acc rule: length_induct)
  case (1 u)
  show ?case
  proof (cases u)
    case Nil
    obtain c cs where sep: "sep = c # cs" using ne by (cases sep) auto
    show ?thesis using Nil sep by (simp add: split_from_not_Nil)
  next
    case (Cons c u')
    show ?thesis
    proof (cases "prefix sep (u @ sep @ v)")
      case True
      have le: "length sep \<le> length u"
        using no_overlap [OF ne uniq True] Cons by simp
      have "drop (length sep) (u @ sep @ v) = drop (length sep) u @ sep @ v"
        using le by simp
      moreover have "length (drop (length sep) u) < length u"
        using ne Cons by simp
      ultimately show ?thesis
        using True Cons ne 1 by (simp add: split_from_not_Nil del: drop_append)
    next
      case False
      then show ?thesis using Cons 1 by simp
    qed
  qed
qed

section \<open>Facts about response extraction\<close>

lemma marker_props:
  "response_marker \<noteq> []" "last response_marker \<notin> set (butlast response_marker)"
  by (simp_all add: response_marker_def)

lemma last_item_split_from:
  "last_item (split_from sep acc s) = Inr (last (split_from sep acc s))"
  using split_from_not_Nil [of sep acc s]
  by (cases "split_from sep acc s") (simp_all add: last_item_def)

lemma extract_response_last:
  "extract_response s = Inr (strip (last (split_from response_marker [] s)))"
  by (simp add: extract_response_def split_def marker_props last_item_split_from)

lemma extract_no_marker:
  "\<not> contains response_marker s \<Longrightarrow> extract_response s = Inr (strip s)"
  by (simp add: extract_response_last split_from_no_sep)

lemma extract_after_marker:
  "extract_response (u @ response_marker @ v) = extract_response v"
  by (simp only: extract_response_last last_split_from_after [OF marker_props])

lemma extract_after_header:
  assumes "\<not> contains response_marker v"
  shows "extract_response (u @ response_header @ v) = Inr (strip v)"
proof -
  let ?nl = "CHR ''\<newline>''"
  have hdr: "u @ response_header @ v = (u @ [?nl, ?nl]) @ response_marker @ (?nl # v)"
    by (simp add: response_header_def response_marker_def)
  have no: "\<not> contains response_marker (?nl # v)"
    using assms by (simp add: response_marker_def)
  have "extract_response (u @ response_header @ v) = extract_response (?nl # v)"
    unfolding hdr by (rule extract_after_marker)
  also have "\<dots> = Inr (strip (?nl # v))" using no by (rule extract_no_marker)
  also have "\<dots> = Inr (strip v)" by (simp add: strip_space_Cons is_space_newline)
  finally show ?thesis .
qed

text \<open>
  A text that holds the marker is cut the same way whatever stands in front of it: only
  the part after the last marker counts.
\<close>

lemma extract_ignores_front:
  assumes "contains response_marker s"
  shows "extract_response (p @ s) = extract_response s"
proof -
  from assms obtain u v where s: "s = u @ response_marker @ v"
    by (auto simp: contains_iff sublist_def)
  have "extract_response (p @ s) = extract_response ((p @ u) @ response_marker @ v)"
    by (simp add: s)
  also have "\<dots> = extract_response v" by (rule extract_after_marker)
  also have "\<dots> = extract_response s" unfolding s by (rule extract_after_marker [symmetric])
  finally show ?thesis .
qed

section \<open>Facts about the templates\<close>

lemma text_format_instruction:
  "text (format_instruction ex) =
     (if input ex \<noteq> []
      then preamble_with_input @ instruction ex @ input_header @ input ex
             @ response_header @ output ex
      else preamble_no_input @ instruction ex @ response_header @ output ex)"
  by (simp add: format_instruction_def Let_def)

lemma text_format_instruction_prompt:
  "text (format_instruction ex) = build_prompt (instruction ex) (input ex) @ output ex"
  by (simp add: text_format_instruction build_prompt_def)

lemma build_prompt_ends:
  "\<exists>u. build_prompt instr input_text = u @ response_header"
  by (simp add: build_prompt_def)

lemma input_marker_newline_free: "CHR ''\<newline>'' \<notin> set ''### Input:''"
  by simp

lemma preamble_no_input_split:
  "\<exists>p. preamble_no_input = p @ ''\<newline>'' \<and> \<not> contains ''### Input:'' p"
proof -
  have "preamble_no_input =
      ''Below is an instruction that describes a task. Write a response that appropriately completes the request.\<newline>\<newline>### Instruction:'' @ ''\<newline>''"
    by (simp add: preamble_no_input_def)
  moreover have "\<not> contains ''### Input:''
      ''Below is an instruction that describes a task. Write a response that appropriately completes the request.\<newline>\<newline>### Instruction:''"
    by simp
  ultimately show ?thesis by blast
qed

section \<open>Facts about taking a part of the dataset\<close>

lemma map_nth_upt_take: "n \<le> length ds \<Longrightarrow> map (\<lambda>i. ds ! i) [0..<n] = take n ds"
  by (rule nth_equalityI) simp_all

lemma select_prefix:
  "n \<le> length ds \<Longrightarrow> select ds [0..<n] = Inr (take n ds)"
  by (simp add: select_def list_all_iff map_nth_upt_take)

lemma floor_rat_numeral_divide:
  "\<lfloor>numeral a / numeral b :: rat\<rfloor> = numeral a div numeral b"
  by (metis floor_divide_of_int_eq of_int_numeral)

lemma floor_rat_minus_numeral_divide:
  "\<lfloor>- (numeral a / numeral b) :: rat\<rfloor> = - numeral a div numeral b"
  by (metis divide_minus_left floor_divide_of_int_eq of_int_neg_numeral of_int_numeral)

lemma rounded_product_bounds:
  fixes fraction :: rat and rnd :: "rat \<Rightarrow> rat"
  assumes mono: "mono rnd" and zero: "rnd 0 = 0" and whole: "rnd (of_nat n) = of_nat n"
      and f: "0 \<le> fraction" "fraction \<le> 1"
  shows "0 \<le> rnd (of_nat n * fraction)" "nat \<lfloor>rnd (of_nat n * fraction)\<rfloor> \<le> n"
proof -
  have "0 \<le> of_nat n * fraction" using f by simp
  then have "rnd 0 \<le> rnd (of_nat n * fraction)" by (rule monoD [OF mono])
  then show "0 \<le> rnd (of_nat n * fraction)" using zero by simp
  have "of_nat n * fraction \<le> of_nat n * 1"
    using f by (intro mult_left_mono) simp_all
  then have "of_nat n * fraction \<le> of_nat n" by simp
  then have "rnd (of_nat n * fraction) \<le> rnd (of_nat n)" by (rule monoD [OF mono])
  then have "rnd (of_nat n * fraction) \<le> of_nat n" using whole by simp
  then have "\<lfloor>rnd (of_nat n * fraction)\<rfloor> \<le> \<lfloor>(of_nat n :: rat)\<rfloor>"
    by (rule floor_mono)
  then show "nat \<lfloor>rnd (of_nat n * fraction)\<rfloor> \<le> n" by simp
qed

lemma train_dataset_in_range:
  fixes fraction :: rat
  assumes mono: "mono rnd" and zero: "rnd 0 = 0"
      and whole: "rnd (of_nat (length ds)) = of_nat (length ds)"
      and f: "0 \<le> fraction" "fraction \<le> 1"
  shows "train_dataset rnd ds fraction =
    Inr (take (nat \<lfloor>rnd (of_nat (length ds) * fraction)\<rfloor>) ds)"
proof -
  let ?k = "\<lfloor>rnd (of_nat (length ds) * fraction)\<rfloor>"
  have nn: "\<not> rnd (of_nat (length ds) * fraction) < 0"
    using rounded_product_bounds(1) [OF mono zero whole f] by (simp add: not_less)
  have "train_size rnd ds fraction = ?k"
    using nn by (simp add: train_size_def py_int_def)
  moreover have "py_range ?k = [0..<nat ?k]" by (simp add: py_range_def)
  ultimately show ?thesis
    using rounded_product_bounds(2) [OF mono zero whole f]
    by (simp add: train_dataset_def select_prefix)
qed

lemma train_dataset_whole:
  assumes "mono rnd" and "rnd 0 = 0" and "rnd (of_nat (length ds)) = of_nat (length ds)"
  shows "train_dataset rnd ds 1 = Inr ds"
  using train_dataset_in_range [OF assms, of 1] assms(3) by simp

lemma train_dataset_none:
  assumes "mono rnd" and "rnd 0 = 0" and "rnd (of_nat (length ds)) = of_nat (length ds)"
  shows "train_dataset rnd ds 0 = Inr []"
  using train_dataset_in_range [OF assms, of 0] assms(2) by simp

lemma generate_response_suffix:
  assumes "decode_generate (build_prompt instr input_text) max_length
      = build_prompt instr input_text @ sfx"
    and no: "\<not> contains response_marker sfx"
  shows "generate_response decode_generate instr input_text max_length = Inr (strip sfx)"
proof -
  obtain u where "build_prompt instr input_text = u @ response_header"
    using build_prompt_ends by blast
  then show ?thesis
    using assms(1) extract_after_header [OF no]
    by (simp add: generate_response_def Let_def)
qed

section \<open>The formatted training text\<close>

text \<open>
  C1. For every example whose \<open>input\<close> is not empty, the text of the record that
  \<open>format_instruction\<close> returns holds the three section markers one after the other:
  a copy of "### Instruction:", later a copy of "### Input:", later a copy of
  "### Response:".
\<close>

theorem format_markers_in_order:
  "input ex \<noteq> [] \<Longrightarrow>
   \<exists>a b c d. text (format_instruction ex) =
     a @ ''### Instruction:'' @ b @ ''### Input:'' @ c @ ''### Response:'' @ d"
proof -
  assume ne: "input ex \<noteq> []"
  let ?nl = "CHR ''\<newline>''"
  let ?a = "''Below is an instruction that describes a task, paired with an input that provides further context. Write a response that appropriately completes the request.\<newline>\<newline>''"
  have "text (format_instruction ex) =
      ?a @ ''### Instruction:'' @ (?nl # instruction ex @ [?nl, ?nl]) @ ''### Input:''
        @ (?nl # input ex @ [?nl, ?nl]) @ ''### Response:'' @ (?nl # output ex)"
    using ne
    by (simp add: text_format_instruction preamble_with_input_def input_header_def
        response_header_def)
  then show ?thesis by blast
qed

theorem format_markers_in_order_witness:
  "input \<lparr>instruction = ''Translate to French'', input = ''Good morning'',
      output = ''Bonjour''\<rparr> \<noteq> []
   \<and> (\<exists>a b c d.
        text (format_instruction
          \<lparr>instruction = ''Translate to French'', input = ''Good morning'',
            output = ''Bonjour''\<rparr>) =
        a @ ''### Instruction:'' @ b @ ''### Input:'' @ c @ ''### Response:'' @ d)"
  using format_markers_in_order
    [of "\<lparr>instruction = ''Translate to French'', input = ''Good morning'',
          output = ''Bonjour''\<rparr>"]
  by simp

text \<open>
  C2, as amended. For every example whose \<open>input\<close> is empty, the text holds
  "### Input:" exactly when the \<open>instruction\<close> or the \<open>output\<close> field holds it: the
  template adds no such marker of its own, and the fields are passed through as they
  are.
\<close>

theorem no_input_marker_iff:
  "input ex = [] \<Longrightarrow>
   contains ''### Input:'' (text (format_instruction ex)) \<longleftrightarrow>
     contains ''### Input:'' (instruction ex) \<or> contains ''### Input:'' (output ex)"
proof -
  assume emp: "input ex = []"
  let ?nl = "CHR ''\<newline>''"
  let ?m = "''### Input:''"
  obtain p where p: "preamble_no_input = p @ [?nl]" and np: "\<not> contains ?m p"
    using preamble_no_input_split by auto
  have t: "text (format_instruction ex) =
      p @ ?nl # (instruction ex @ ?nl # (''\<newline>### Response:'' @ ?nl # output ex))"
    using emp by (simp add: text_format_instruction p response_header_def)
  have mid: "\<not> contains ?m ''\<newline>### Response:''" by simp
  show ?thesis
    unfolding t
    by (simp only: contains_across [OF input_marker_newline_free] np mid) simp
qed

theorem no_input_marker_iff_witness:
  "input \<lparr>instruction = ''Say hi'', input = [], output = ''Hi!''\<rparr> = []
   \<and> (contains ''### Input:''
         (text (format_instruction \<lparr>instruction = ''Say hi'', input = [], output = ''Hi!''\<rparr>))
        = (contains ''### Input:'' ''Say hi'' \<or> contains ''### Input:'' ''Hi!''))"
  using no_input_marker_iff [of "\<lparr>instruction = ''Say hi'', input = [], output = ''Hi!''\<rparr>"]
  by simp

text \<open>
  The claim as first stated fails: an example with an empty \<open>input\<close> whose instruction
  quotes the marker is formatted into a text that holds the marker.
\<close>

theorem input_marker_in_instruction:
  "input \<lparr>instruction = ''Keep the ### Input: line'', input = [], output = ''ok''\<rparr> = []
   \<and> contains ''### Input:''
        (text (format_instruction
           \<lparr>instruction = ''Keep the ### Input: line'', input = [], output = ''ok''\<rparr>))"
  by (simp add: text_format_instruction preamble_no_input_def response_header_def)

section \<open>Extraction after generation\<close>

text \<open>
  C3, as amended. For every prompt that \<open>generate_response\<close> builds and every suffix that
  does not hold the marker "### Response:", extraction applied to the prompt followed by
  the suffix returns the suffix with the whitespace at its ends removed.
\<close>

theorem extract_generated_suffix:
  "\<not> contains ''### Response:'' sfx \<Longrightarrow>
   extract_response (build_prompt instr input_text @ sfx) = Inr (strip sfx)"
proof -
  assume "\<not> contains ''### Response:'' sfx"
  then have no: "\<not> contains response_marker sfx" by (simp add: response_marker_def)
  obtain u where "build_prompt instr input_text = u @ response_header"
    using build_prompt_ends by blast
  then show ?thesis using extract_after_header [OF no] by simp
qed

theorem extract_generated_suffix_witness:
  "\<not> contains ''### Response:'' '' Hello there!\<newline>''
   \<and> extract_response (build_prompt ''Say hi'' [] @ '' Hello there!\<newline>'')
       = Inr ''Hello there!''"
  using extract_generated_suffix [of "'' Hello there!\<newline>''" "''Say hi''" "[]"]
  by (simp add: strip_def lstrip_def rstrip_def is_space_def)

text \<open>
  The claim as first stated fails for a suffix that holds the marker: when the model goes
  on to write a second instruction block, only the text after the last marker is
  returned.
\<close>

theorem extract_generated_suffix_counterexample:
  "extract_response
     (build_prompt ''Say hi'' [] @ ''Hi!\<newline>\<newline>### Instruction:\<newline>Say bye\<newline>\<newline>### Response:\<newline>Bye!'')
     = Inr ''Bye!''
   \<and> extract_response
     (build_prompt ''Say hi'' [] @ ''Hi!\<newline>\<newline>### Instruction:\<newline>Say bye\<newline>\<newline>### Response:\<newline>Bye!'')
     \<noteq> Inr (strip ''Hi!\<newline>\<newline>### Instruction:\<newline>Say bye\<newline>\<newline>### Response:\<newline>Bye!'')"
proof -
  let ?sfx = "''Hi!\<newline>\<newline>### Instruction:\<newline>Say bye\<newline>\<newline>### Response:\<newline>Bye!''"
  have eq: "build_prompt ''Say hi'' [] @ ?sfx
      = (build_prompt ''Say hi'' [] @ ''Hi!\<newline>\<newline>### Instruction:\<newline>Say bye'')
        @ response_header @ ''Bye!''"
    by (simp add: response_header_def)
  have no: "\<not> contains response_marker ''Bye!''" by (simp add: response_marker_def)
  have "extract_response (build_prompt ''Say hi'' [] @ ?sfx) = Inr (strip ''Bye!'')"
    unfolding eq by (rule extract_after_header [OF no])
  then have r: "extract_response (build_prompt ''Say hi'' [] @ ?sfx) = Inr ''Bye!''"
    by (simp add: strip_def lstrip_def rstrip_def is_space_def)
  have "strip ?sfx \<noteq> ''Bye!''"
    by (simp add: strip_def lstrip_def rstrip_def is_space_def)
  then show ?thesis using r by simp
qed

section \<open>The part of the dataset\<close>

text \<open>
  C4, as amended. For every dataset and every fraction from 0 to 1, the selection
  returns the first \<open>floor(len(dataset) * fraction)\<close> rows of the dataset in their order
  and as many rows as that; the fraction 0 gives no row, the fraction 1 gives the whole
  dataset, and selecting with the fraction 1 from a result gives that result again.
\<close>

theorem train_dataset_floor_prefix:
  fixes fraction :: rat
  assumes mono: "mono rnd" and zero: "rnd 0 = 0"
      and whole: "\<And>m. m \<le> length ds \<Longrightarrow> rnd (of_nat m) = of_nat m"
      and f: "0 \<le> fraction" "fraction \<le> 1"
  shows "returns_floor_prefix rnd ds fraction
    \<and> train_dataset rnd ds fraction
        = Inr (take (nat \<lfloor>rnd (of_nat (length ds) * fraction)\<rfloor>) ds)
    \<and> train_dataset rnd ds 0 = Inr []
    \<and> train_dataset rnd ds 1 = Inr ds
    \<and> train_dataset rnd (take (nat \<lfloor>rnd (of_nat (length ds) * fraction)\<rfloor>) ds) 1
        = train_dataset rnd ds fraction"
proof -
  let ?p = "rnd (of_nat (length ds) * fraction)"
  let ?k = "nat \<lfloor>?p\<rfloor>"
  have len_ok: "rnd (of_nat (length ds)) = of_nat (length ds)" by (rule whole) simp
  have r: "train_dataset rnd ds fraction = Inr (take ?k ds)"
    using mono zero len_ok f by (rule train_dataset_in_range)
  have le: "?k \<le> length ds"
    using rounded_product_bounds(2) [OF mono zero len_ok f] .
  have "0 \<le> ?p" using rounded_product_bounds(1) [OF mono zero len_ok f] .
  then have nn: "0 \<le> \<lfloor>?p\<rfloor>" by simp
  have len: "length (take ?k ds) = ?k" using le by simp
  have ik: "int ?k = \<lfloor>?p\<rfloor>" using nn by simp
  have p: "returns_floor_prefix rnd ds fraction"
    unfolding returns_floor_prefix_def r by (simp only: sum.case len ik)
  have z: "train_dataset rnd ds 0 = Inr []"
    using mono zero len_ok by (rule train_dataset_none)
  have w: "train_dataset rnd ds 1 = Inr ds"
    using mono zero len_ok by (rule train_dataset_whole)
  have "rnd (of_nat (length (take ?k ds))) = of_nat (length (take ?k ds))"
    by (rule whole) simp
  then have "train_dataset rnd (take ?k ds) 1 = Inr (take ?k ds)"
    using mono zero by (intro train_dataset_whole)
  then show ?thesis using p r z w by simp
qed

theorem train_dataset_floor_prefix_witness:
  "mono (\<lambda>x :: rat. x) \<and> (0 :: rat) \<le> 1 / 2 \<and> (1 / 2 :: rat) \<le> 1
   \<and> returns_floor_prefix (\<lambda>x. x) [10, 20, 30, 40, 50 :: nat] (1 / 2)
   \<and> train_dataset (\<lambda>x. x) [10, 20, 30, 40, 50 :: nat] (1 / 2) = Inr [10, 20]
   \<and> train_dataset (\<lambda>x. x) [10, 20, 30, 40, 50 :: nat] 0 = Inr []
   \<and> train_dataset (\<lambda>x. x) [10, 20, 30, 40, 50 :: nat] 1 = Inr [10, 20, 30, 40, 50]
   \<and> train_dataset (\<lambda>x. x) [10, 20 :: nat] 1 = Inr [10, 20]"
  using train_dataset_floor_prefix [of "\<lambda>x. x" "[10, 20, 30, 40, 50 :: nat]" "1 / 2"]
  by (simp add: mono_def floor_rat_numeral_divide)

text \<open>
  The claim as first stated, for every fraction, fails below 0: with three rows and the
  fraction \<open>-0.5\<close> the product is \<open>-1.5\<close> (exact as a double), \<open>int\<close> gives \<open>-1\<close>, the range
  is empty and no row is returned, while \<open>floor(-1.5)\<close> is \<open>-2\<close>.
\<close>

theorem negative_fraction_counterexample:
  "\<not> returns_floor_prefix (\<lambda>x. x) [10, 20, 30 :: nat] (- 1 / 2)"
  by (simp add: returns_floor_prefix_def train_dataset_def train_size_def py_int_def
      py_range_def select_def floor_rat_numeral_divide floor_rat_minus_numeral_divide)

section \<open>Training text and inference prompt\<close>

text \<open>
  C5. For every instruction, input and output, the training text is the inference prompt
  followed by the output, in both template branches, and every inference prompt ends
  with "### Response:" and one newline.
\<close>

theorem format_is_prompt_then_output:
  "text (format_instruction ex) = build_prompt (instruction ex) (input ex) @ output ex
   \<and> suffix ''### Response:\<newline>'' (build_prompt instr input_text)"
proof -
  obtain u where "build_prompt instr input_text = u @ response_header"
    using build_prompt_ends by blast
  then have "build_prompt instr input_text = (u @ ''\<newline>\<newline>'') @ ''### Response:\<newline>''"
    by (simp add: response_header_def)
  then have "suffix ''### Response:\<newline>'' (build_prompt instr input_text)"
    by (simp only: suffix_def) blast
  then show ?thesis by (simp add: text_format_instruction_prompt)
qed

text \<open>
  C6. For every text that does not hold the marker "### Response:", extraction returns
  without an error, and returns the whole text with the whitespace at its ends removed:
  the text is the result between two runs of whitespace.
\<close>

theorem extract_without_marker:
  "\<not> contains ''### Response:'' s \<Longrightarrow>
   extract_response s = Inr (strip s)
   \<and> (\<exists>l r. s = l @ strip s @ r \<and> list_all is_space l \<and> list_all is_space r)"
  using extract_no_marker [of s] strip_decompose [of s] by (simp add: response_marker_def)

theorem extract_without_marker_witness:
  "\<not> contains ''### Response:'' ''  Paris is the capital.\<newline>''
   \<and> extract_response ''  Paris is the capital.\<newline>'' = Inr ''Paris is the capital.''"
  using extract_without_marker [of "''  Paris is the capital.\<newline>''"]
  by (simp add: strip_def lstrip_def rstrip_def is_space_def)

text \<open>
  C7. For the example with the instruction "Say hi", an empty input and the output "Hi!",
  the text ends with "### Response:", one newline and "Hi!", and does not hold
  "### Input:".
\<close>

theorem say_hi_example:
  "suffix ''### Response:\<newline>Hi!''
     (text (format_instruction \<lparr>instruction = ''Say hi'', input = [], output = ''Hi!''\<rparr>))
   \<and> \<not> contains ''### Input:''
     (text (format_instruction \<lparr>instruction = ''Say hi'', input = [], output = ''Hi!''\<rparr>))"
proof -
  let ?t = "text (format_instruction \<lparr>instruction = ''Say hi'', input = [], output = ''Hi!''\<rparr>)"
  have "?t = (preamble_no_input @ ''Say hi\<newline>\<newline>'') @ ''### Response:\<newline>Hi!''"
    by (simp add: text_format_instruction response_header_def)
  then have "suffix ''### Response:\<newline>Hi!'' ?t"
    by (simp only: suffix_def) blast
  moreover have "\<not> contains ''### Input:'' ?t"
    by (simp add: text_format_instruction preamble_no_input_def response_header_def)
  ultimately show ?thesis by simp
qed

text \<open>
  C8. The last line the script prints says that the model was fine-tuned on "5% of the
  Alpaca dataset", while \<open>DATASET_SIZE\<close> is 0.01, which is 1 percent and not 5.
\<close>

theorem closing_message_disagrees:
  "contains ''5% of the Alpaca dataset'' closing_message
   \<and> DATASET_SIZE = 1 / 100
   \<and> DATASET_SIZE * 100 = 1
   \<and> DATASET_SIZE * 100 \<noteq> 5"
  by (simp add: closing_message_def closing_lines_def DATASET_SIZE_def)

text \<open>
  C9. For every example whose \<open>output\<close> does not hold the marker "### Response:",
  extraction applied to the formatted training text returns the output with the
  whitespace at its ends removed.
\<close>

theorem extract_formatted_output:
  "\<not> contains ''### Response:'' (output ex) \<Longrightarrow>
   extract_response (text (format_instruction ex)) = Inr (strip (output ex))"
proof -
  assume "\<not> contains ''### Response:'' (output ex)"
  then have no: "\<not> contains response_marker (output ex)" by (simp add: response_marker_def)
  obtain u where "build_prompt (instruction ex) (input ex) = u @ response_header"
    using build_prompt_ends by blast
  then have "text (format_instruction ex) = u @ response_header @ output ex"
    by (simp add: text_format_instruction_prompt)
  then show ?thesis using extract_after_header [OF no] by simp
qed

theorem extract_formatted_output_witness:
  "\<not> contains ''### Response:'' ''Hi! ''
   \<and> extract_response
       (text (format_instruction \<lparr>instruction = ''Say hi'', input = [], output = ''Hi! ''\<rparr>))
     = Inr ''Hi!''"
  using extract_formatted_output [of "\<lparr>instruction = ''Say hi'', input = [], output = ''Hi! ''\<rparr>"]
  by (simp add: strip_def lstrip_def rstrip_def is_space_def)

text \<open>
  C10. For every example, also one with an empty instruction or an empty output, the
  text ends with "### Response:", one newline and the output as it is; nothing follows
  the output, and with an empty output the text ends with "### Response:" and the
  newline.
\<close>

theorem format_output_last:
  "suffix (''### Response:\<newline>'' @ output ex) (text (format_instruction ex))"
proof -
  obtain u where "build_prompt (instruction ex) (input ex) = u @ response_header"
    using build_prompt_ends by blast
  then have "text (format_instruction ex) =
      (u @ ''\<newline>\<newline>'') @ ''### Response:\<newline>'' @ output ex"
    by (simp add: text_format_instruction_prompt response_header_def)
  then show ?thesis by (simp only: suffix_def) blast
qed

end
